theory Spec2Isabelle
  imports Main "HOL-Library.Multiset"
begin

section \<open>The booking application written out by \<open>build_full_sceduler.py\<close>\<close>

text \<open>
  The script writes the files of a small Django project. The behaviour lives in
  \<open>booking/models.py\<close>, \<open>booking/views.py\<close> and the template
  \<open>booking/templates/calendar.html\<close>; this theory embeds those three.
  The database is a record of its two tables, every view takes the database (and the
  session, where it touches it) and returns the new one, and every exception a view can
  raise is a value of \<open>error\<close>.
\<close>

subsection \<open>Data model (\<open>booking/models.py\<close>)\<close>

text \<open>A \<open>datetime.date\<close>: proleptic Gregorian year, month and day.\<close>

record date =
  year :: int
  month :: int
  day :: int

text \<open>
  \<open>class Slot(models.Model)\<close>. The primary key \<open>id\<close> is the field \<open>pk\<close> here
  (Django's own alias), a positive number assigned by the database.
\<close>

record Slot =
  pk :: nat
  date :: date
  time :: string
  available :: bool

text \<open>
  \<open>class Booking(models.Model)\<close>. The foreign key \<open>slot\<close> holds the primary key of
  the slot it refers to.
\<close>

record Booking =
  booking_pk :: nat
  name :: string
  email :: string
  slot :: nat

text \<open>
  The persisted state: the rows of both tables in insertion order, and for each table the
  last primary key the database has handed out.
\<close>

record database =
  slots :: "Slot list"
  bookings :: "Booking list"
  slot_seq :: nat
  booking_seq :: nat

datatype error =
    Http404
  | MultipleObjectsReturned
  | MultiValueDictKeyError string
  | ValidationError
  | IllegalMonthError
  | ValueError
  | TemplateSyntaxError string

text \<open>
  The constraints the database itself maintains: primary keys are unique, and none is
  beyond the last one handed out.
\<close>

definition wf_db :: "database \<Rightarrow> bool" where
  "wf_db db \<longleftrightarrow>
     distinct (map pk (slots db)) \<and> (\<forall>s \<in> set (slots db). pk s \<le> slot_seq db) \<and>
     distinct (map booking_pk (bookings db)) \<and>
     (\<forall>b \<in> set (bookings db). booking_pk b \<le> booking_seq db)"

subsection \<open>The object manager calls the views make\<close>

text \<open>\<open>Slot.objects.create(date=..., time=..., available=...)\<close>: one INSERT.\<close>

definition Slot_objects_create :: "date \<Rightarrow> string \<Rightarrow> bool \<Rightarrow> database \<Rightarrow> Slot \<times> database" where
  "Slot_objects_create d t a db =
     (let s = \<lparr>pk = Suc (slot_seq db), date = d, time = t, available = a\<rparr>
      in (s, db\<lparr>slots := slots db @ [s], slot_seq := Suc (slot_seq db)\<rparr>))"

text \<open>\<open>Booking.objects.create(name=..., email=..., slot=slot)\<close>: one INSERT.\<close>

definition Booking_objects_create :: "string \<Rightarrow> string \<Rightarrow> Slot \<Rightarrow> database \<Rightarrow> Booking \<times> database" where
  "Booking_objects_create n e s db =
     (let b = \<lparr>booking_pk = Suc (booking_seq db), name = n, email = e, slot = pk s\<rparr>
      in (b, db\<lparr>bookings := bookings db @ [b], booking_seq := Suc (booking_seq db)\<rparr>))"

text \<open>
  \<open>slot.save()\<close> on an object that has a primary key: an UPDATE of every field of the
  row with that key, and an INSERT when no row has it.
\<close>

definition Slot_save :: "Slot \<Rightarrow> database \<Rightarrow> database" where
  "Slot_save s db =
     (if \<exists>r \<in> set (slots db). pk r = pk s
      then db\<lparr>slots := map (\<lambda>r. if pk r = pk s then s else r) (slots db)\<rparr>
      else db\<lparr>slots := slots db @ [s], slot_seq := max (slot_seq db) (pk s)\<rparr>)"

text \<open>
  \<open>get_object_or_404(Slot, id=slot_id, available=True)\<close>: \<open>QuerySet.get\<close> on the
  filtered rows; no row is \<open>Http404\<close>, more than one is \<open>MultipleObjectsReturned\<close>.
\<close>

definition get_object_or_404 :: "database \<Rightarrow> nat \<Rightarrow> error + Slot" where
  "get_object_or_404 db slot_id =
     (case filter (\<lambda>s. pk s = slot_id \<and> available s = True) (slots db) of
        [] \<Rightarrow> Inl Http404
      | [s] \<Rightarrow> Inr s
      | _ \<Rightarrow> Inl MultipleObjectsReturned)"

subsection \<open>Requests and responses\<close>

text \<open>
  What the views read of a request: \<open>request.method\<close>, \<open>request.POST\<close> and
  \<open>request.session\<close>. The only session key the application uses is \<open>is_owner\<close>.
\<close>

record request =
  request_method :: string
  POST :: "string \<rightharpoonup> string"
  session :: "string \<rightharpoonup> bool"

text \<open>
  The context \<open>index\<close> hands to \<open>render\<close>: the dictionary with the keys \<open>days\<close>,
  \<open>slot_map\<close>, \<open>month\<close> and \<open>year\<close>.
\<close>

record calendar_context =
  ctx_days :: "date list"
  ctx_slot_map :: "date \<times> string \<rightharpoonup> bool"
  ctx_month :: int
  ctx_year :: int

text \<open>
  A response is a redirect or a template rendered with its context. What a rendered page
  looks like is not modelled: \<open>render_calendar ctx\<close> stands for the page
  \<open>calendar.html\<close> gives for \<open>ctx\<close>, if the template compiles.
\<close>

datatype response =
    redirect string
  | render_login
  | render_admin_panel "Slot list"
  | render_book Slot
  | render_calendar calendar_context

definition OWNER_PASSWORD :: string where
  "OWNER_PASSWORD = ''admin123''"

text \<open>\<open>request.session.get("is_owner")\<close> read as a condition.\<close>

definition is_owner :: "(string \<rightharpoonup> bool) \<Rightarrow> bool" where
  "is_owner sess \<longleftrightarrow> sess ''is_owner'' = Some True"

subsection \<open>\<open>admin_login\<close>\<close>

definition admin_login :: "request \<Rightarrow> response \<times> (string \<rightharpoonup> bool)" where
  "admin_login req =
     (if request_method req = ''POST'' \<and> POST req ''password'' = Some OWNER_PASSWORD
      then (redirect ''/admin_panel/'', (session req)(''is_owner'' \<mapsto> True))
      else (render_login, session req))"

subsection \<open>\<open>admin_panel\<close>\<close>

text \<open>
  \<open>Slot.objects.order_by("date")\<close>: the rows sorted by date, ascending. Rows of equal
  date are kept in table order.
\<close>

definition date_le :: "date \<Rightarrow> date \<Rightarrow> bool" where
  "date_le a b \<longleftrightarrow>
     year a < year b \<or> (year a = year b \<and> (month a < month b \<or> (month a = month b \<and> day a \<le> day b)))"

fun insert_by_date :: "Slot \<Rightarrow> Slot list \<Rightarrow> Slot list" where
  "insert_by_date s [] = [s]"
| "insert_by_date s (r # rs) =
     (if date_le (date s) (date r) then s # r # rs else r # insert_by_date s rs)"

definition order_by_date :: "Slot list \<Rightarrow> Slot list" where
  "order_by_date rows = foldr insert_by_date rows []"

text \<open>
  The view. \<open>to_python\<close> is the conversion the framework's \<open>DateField\<close> applies to the
  posted text when the row is written; it is not part of this repository and is a
  parameter. \<open>None\<close> is the \<open>ValidationError\<close> it raises, before anything is written.
  A missing form field raises at \<open>request.POST[...]\<close>, also before anything is written.
\<close>

definition admin_panel ::
  "(string \<Rightarrow> date option) \<Rightarrow> request \<Rightarrow> database \<Rightarrow> (error + response) \<times> database" where
  "admin_panel to_python req db =
     (if \<not> is_owner (session req) then (Inr (redirect ''/login/''), db)
      else if request_method req = ''POST'' then
        (case POST req ''date'' of
           None \<Rightarrow> (Inl (MultiValueDictKeyError ''date''), db)
         | Some d \<Rightarrow>
            (case POST req ''time'' of
               None \<Rightarrow> (Inl (MultiValueDictKeyError ''time''), db)
             | Some t \<Rightarrow>
                (case to_python d of
                   None \<Rightarrow> (Inl ValidationError, db)
                 | Some d' \<Rightarrow>
                    (let db' = snd (Slot_objects_create d' t True db)
                     in (Inr (render_admin_panel (order_by_date (slots db'))), db')))))
      else (Inr (render_admin_panel (order_by_date (slots db))), db))"

subsection \<open>\<open>book_slot\<close>\<close>

text \<open>
  The two writes of a successful POST, in the order the view makes them. Each is
  committed on its own: the project's settings do not turn on \<open>ATOMIC_REQUESTS\<close> and the
  view opens no transaction.
\<close>

definition book_slot_writes :: "Slot \<Rightarrow> string \<Rightarrow> string \<Rightarrow> (database \<Rightarrow> database) list" where
  "book_slot_writes s n e =
     [\<lambda>db. snd (Booking_objects_create n e s db),
      Slot_save (s\<lparr>available := False\<rparr>)]"

text \<open>The database after the first \<open>k\<close> of a list of writes have been committed.\<close>

definition commit :: "nat \<Rightarrow> (database \<Rightarrow> database) list \<Rightarrow> database \<Rightarrow> database" where
  "commit k ws db = fold (\<lambda>w. w) (take k ws) db"

definition book_slot :: "request \<Rightarrow> nat \<Rightarrow> database \<Rightarrow> (error + response) \<times> database" where
  "book_slot req slot_id db =
     (case get_object_or_404 db slot_id of
        Inl e \<Rightarrow> (Inl e, db)
      | Inr s \<Rightarrow>
         (if request_method req = ''POST'' then
            (case POST req ''name'' of
               None \<Rightarrow> (Inl (MultiValueDictKeyError ''name''), db)
             | Some n \<Rightarrow>
                (case POST req ''email'' of
                   None \<Rightarrow> (Inl (MultiValueDictKeyError ''email''), db)
                 | Some e \<Rightarrow> (Inr (redirect ''/''), commit 2 (book_slot_writes s n e) db)))
          else (Inr (render_book s), db)))"

subsection \<open>The exposed operations as steps on the database\<close>

text \<open>
  The four routes of \<open>booking/urls.py\<close>. A request brings its own session, so the steps
  of any number of clients interleave in one list. \<open>index\<close> and \<open>admin_login\<close> make no
  database call that writes; the other two leave the database their view returns.
\<close>

datatype operation =
    op_index date
  | op_admin_login request
  | op_admin_panel request
  | op_book_slot request nat

fun step :: "(string \<Rightarrow> date option) \<Rightarrow> operation \<Rightarrow> database \<Rightarrow> database" where
  "step to_python (op_index today) db = db"
| "step to_python (op_admin_login req) db = db"
| "step to_python (op_admin_panel req) db = snd (admin_panel to_python req db)"
| "step to_python (op_book_slot req slot_id) db = snd (book_slot req slot_id db)"

definition run :: "(string \<Rightarrow> date option) \<Rightarrow> operation list \<Rightarrow> database \<Rightarrow> database" where
  "run to_python ops db = fold (step to_python) ops db"

text \<open>A slot with this primary key is stored, and no stored slot with it is available.\<close>

definition unavailable :: "database \<Rightarrow> nat \<Rightarrow> bool" where
  "unavailable db i \<longleftrightarrow>
     (\<exists>s \<in> set (slots db). pk s = i) \<and> (\<forall>s \<in> set (slots db). pk s = i \<longrightarrow> \<not> available s)"

subsection \<open>The month grid of Python's \<open>calendar\<close> module\<close>

text \<open>
  \<open>index\<close> calls \<open>calendar.Calendar().itermonthdates(year, month)\<close>. The functions
  below follow the standard library's \<open>calendar.py\<close> and the ordinal arithmetic of
  \<open>datetime.date\<close>; \<open>//\<close> and \<open>%\<close> of Python are \<open>div\<close> and \<open>mod\<close> on \<open>int\<close>.
\<close>

definition isleap :: "int \<Rightarrow> bool" where
  "isleap y \<longleftrightarrow> y mod 4 = 0 \<and> (y mod 100 \<noteq> 0 \<or> y mod 400 = 0)"

definition mdays :: "int list" where
  "mdays = [0, 31, 28, 31, 30, 31, 30, 31, 31, 30, 31, 30, 31]"

definition monthlen :: "int \<Rightarrow> int \<Rightarrow> int" where
  "monthlen y m = mdays ! nat m + (if m = 2 \<and> isleap y then 1 else 0)"

definition prevmonth :: "int \<Rightarrow> int \<Rightarrow> int \<times> int" where
  "prevmonth y m = (if m = 1 then (y - 1, 12) else (y, m - 1))"

definition nextmonth :: "int \<Rightarrow> int \<Rightarrow> int \<times> int" where
  "nextmonth y m = (if m = 12 then (y + 1, 1) else (y, m + 1))"

definition days_before_year :: "int \<Rightarrow> int" where
  "days_before_year y = (let z = y - 1 in z * 365 + z div 4 - z div 100 + z div 400)"

definition DAYS_BEFORE_MONTH :: "int list" where
  "DAYS_BEFORE_MONTH = [- 1, 0, 31, 59, 90, 120, 151, 181, 212, 243, 273, 304, 334]"

definition days_before_month :: "int \<Rightarrow> int \<Rightarrow> int" where
  "days_before_month y m = DAYS_BEFORE_MONTH ! nat m + (if m > 2 \<and> isleap y then 1 else 0)"

definition ymd2ord :: "int \<Rightarrow> int \<Rightarrow> int \<Rightarrow> int" where
  "ymd2ord y m d = days_before_year y + days_before_month y m + d"

text \<open>\<open>calendar.weekday\<close>: Monday is 0. A year outside 1..9999 is first mapped into it.\<close>

definition weekday :: "int \<Rightarrow> int \<Rightarrow> int \<Rightarrow> int" where
  "weekday y m d =
     (let y' = (if \<not> (1 \<le> y \<and> y \<le> 9999) then 2000 + y mod 400 else y)
      in (ymd2ord y' m d + 6) mod 7)"

text \<open>
  \<open>Calendar.itermonthdays3\<close> with \<open>firstweekday = 0\<close>: the days of the weeks that overlap
  the month, as (year, month, day). \<open>monthrange\<close> raises on a month outside 1..12.
\<close>

definition itermonthdays3 :: "int \<Rightarrow> int \<Rightarrow> error + (int \<times> int \<times> int) list" where
  "itermonthdays3 y m =
     (if \<not> (1 \<le> m \<and> m \<le> 12) then Inl IllegalMonthError
      else
        (let day1 = weekday y m 1;
             ndays = monthlen y m;
             days_before = (day1 - 0) mod 7;
             days_after = (0 - day1 - ndays) mod 7;
             (py, pm) = prevmonth y m;
             end = monthlen py pm + 1;
             (ny, nm) = nextmonth y m
         in Inr (map (\<lambda>d. (py, pm, d)) [end - days_before .. end - 1] @
                 map (\<lambda>d. (y, m, d)) [1 .. ndays] @
                 map (\<lambda>d. (ny, nm, d)) [1 .. days_after])))"

text \<open>The constructor \<open>datetime.date(year, month, day)\<close>, which checks its arguments.\<close>

definition datetime_date :: "int \<Rightarrow> int \<Rightarrow> int \<Rightarrow> error + date" where
  "datetime_date y m d =
     (if 1 \<le> y \<and> y \<le> 9999 \<and> 1 \<le> m \<and> m \<le> 12 \<and> 1 \<le> d \<and> d \<le> monthlen y m
      then Inr \<lparr>year = y, month = m, day = d\<rparr>
      else Inl ValueError)"

text \<open>Consuming a generator into a list: the first exception ends it.\<close>

fun collect :: "(error + 'a) list \<Rightarrow> error + 'a list" where
  "collect [] = Inr []"
| "collect (Inl e # rs) = Inl e"
| "collect (Inr x # rs) = (case collect rs of Inl e \<Rightarrow> Inl e | Inr xs \<Rightarrow> Inr (x # xs))"

definition itermonthdates :: "int \<Rightarrow> int \<Rightarrow> error + date list" where
  "itermonthdates y m =
     (case itermonthdays3 y m of
        Inl e \<Rightarrow> Inl e
      | Inr ts \<Rightarrow> collect (map (\<lambda>(y', m', d'). datetime_date y' m' d') ts))"

subsection \<open>The template \<open>calendar.html\<close> under Django's template compiler\<close>

text \<open>
  \<open>render(request, "calendar.html", ...)\<close> compiles the template before it renders it.
  The compiler is Django's, not this repository's; the part of it that the tags of
  \<open>calendar.html\<close> reach is the class \<open>FilterExpression\<close> of \<open>django/template/base.py\<close>,
  which every tag applies to each expression it holds. The functions below follow it.

  The character classes of its regular expression, on ASCII: \<open>\w\<close>, \<open>\d\<close>, \<open>\s\<close>, and
  the class \<open>[\w\.]\<close> of the characters of a variable.
\<close>

definition word_char :: "char \<Rightarrow> bool" where
  "word_char c \<longleftrightarrow>
     (let n = (of_char c :: nat)
      in (48 \<le> n \<and> n \<le> 57) \<or> (65 \<le> n \<and> n \<le> 90) \<or> (97 \<le> n \<and> n \<le> 122) \<or> n = 95)"

definition digit_char :: "char \<Rightarrow> bool" where
  "digit_char c \<longleftrightarrow> (let n = (of_char c :: nat) in 48 \<le> n \<and> n \<le> 57)"

definition space_char :: "char \<Rightarrow> bool" where
  "space_char c \<longleftrightarrow> (let n = (of_char c :: nat) in n = 32 \<or> (9 \<le> n \<and> n \<le> 13))"

definition var_char :: "char \<Rightarrow> bool" where
  "var_char c \<longleftrightarrow> word_char c \<or> c = CHR ''.''"

text \<open>The single quote, as a string.\<close>

definition sq :: string where
  "sq = [CHR 0x27]"

text \<open>
  The rest of a quoted string after its opening quote \<open>q\<close>: what follows the first \<open>q\<close>
  that no backslash escapes. \<open>None\<close> when the string is not closed.
\<close>

fun quoted :: "char \<Rightarrow> string \<Rightarrow> string option" where
  "quoted q [] = None"
| "quoted q [c] = (if c = q then Some [] else None)"
| "quoted q (c # d # cs) =
     (if c = q then Some (d # cs)
      else if c = CHR 0x5C then quoted q cs
      else quoted q (d # cs))"

text \<open>
  The alternative \<open>constant\<close> at the start of an expression: a string in double or single
  quotes, or one inside \<open>_( )\<close>. The result is what follows the match.
\<close>

definition match_constant :: "string \<Rightarrow> string option" where
  "match_constant s =
     (case s of
        [] \<Rightarrow> None
      | c # cs \<Rightarrow>
         (if c = CHR 0x22 \<or> c = CHR 0x27 then quoted c cs
          else if c = CHR ''_'' then
            (case cs of
               p # q # cs' \<Rightarrow>
                 (if p = CHR ''('' \<and> (q = CHR 0x22 \<or> q = CHR 0x27)
                  then (case quoted q cs' of
                          Some (r # rs) \<Rightarrow> (if r = CHR '')'' then Some rs else None)
                        | _ \<Rightarrow> None)
                  else None)
             | _ \<Rightarrow> None)
          else None))"

text \<open>
  The alternative \<open>var\<close>: the longest run of variable characters, or else a number with a
  sign, \<open>[-+.]?\d[\d.e]*\<close> (a number without a sign is a run of variable characters).
\<close>

definition match_var :: "string \<Rightarrow> string option" where
  "match_var s =
     (if takeWhile var_char s \<noteq> [] then Some (dropWhile var_char s)
      else (case s of
              c # d # cs \<Rightarrow>
                (if (c = CHR ''-'' \<or> c = CHR ''+'') \<and> digit_char d
                 then Some (dropWhile (\<lambda>x. digit_char x \<or> x = CHR ''.'' \<or> x = CHR ''e'') cs)
                 else None)
            | _ \<Rightarrow> None))"

text \<open>
  The alternative for a filter, \<open>\s*\|\s*(\w+)(?::(constant|var))?\<close>, tried at the start
  of \<open>s\<close>: the filter's name and what follows the match. The argument is optional, so a
  colon that no argument follows is left unmatched.
\<close>

definition match_filter :: "string \<Rightarrow> (string \<times> string) option" where
  "match_filter s =
     (case dropWhile space_char s of
        [] \<Rightarrow> None
      | c # s2 \<Rightarrow>
         (if c \<noteq> CHR ''|'' then None
          else
            (let s3 = dropWhile space_char s2;
                 filter_name = takeWhile word_char s3;
                 s4 = dropWhile word_char s3
             in if filter_name = [] then None
                else Some (filter_name,
                  (case s4 of
                     [] \<Rightarrow> s4
                   | a # s5 \<Rightarrow>
                      (if a \<noteq> CHR '':'' then s4
                       else (case match_constant s5 of
                               Some r \<Rightarrow> r
                             | None \<Rightarrow> (case match_var s5 of Some r \<Rightarrow> r | None \<Rightarrow> s4))))))))"

text \<open>
  \<open>filter_re.finditer\<close> past the start of the expression, where only the filter
  alternative can match: the matches from left to right as (start, end, filter name).
  \<open>pos\<close> is the position of the first character of the string in the expression, and
  \<open>skip\<close> counts the characters still inside the match before.
\<close>

fun finditer :: "nat \<Rightarrow> nat \<Rightarrow> string \<Rightarrow> (nat \<times> nat \<times> string) list" where
  "finditer pos skip [] = []"
| "finditer pos skip (c # cs) =
     (if 0 < skip then finditer (Suc pos) (skip - 1) cs
      else (case match_filter (c # cs) of
              None \<Rightarrow> finditer (Suc pos) 0 cs
            | Some (filter_name, rest) \<Rightarrow>
                (pos, pos + (Suc (length cs) - length rest), filter_name)
                  # finditer (Suc pos) (length cs - length rest) cs))"

text \<open>
  The loop of \<open>FilterExpression.__init__\<close> over the matches after the first, and the check
  after it. A match that does not start where the one before ended, a filter that
  \<open>parser.find_filter\<close> does not know, and characters left at the end each raise
  \<open>TemplateSyntaxError\<close>. (The count of a filter's arguments, \<open>args_check\<close>, is not
  modelled.)
\<close>

fun filters_loop ::
  "string list \<Rightarrow> string \<Rightarrow> nat \<Rightarrow> (nat \<times> nat \<times> string) list \<Rightarrow> error option" where
  "filters_loop registered token up_to [] =
     (if up_to \<noteq> length token
      then Some (TemplateSyntaxError
        (''Could not parse the remainder: '' @ sq @ drop up_to token @ sq @
           '' from '' @ sq @ token @ sq))
      else None)"
| "filters_loop registered token up_to ((start, end, filter_name) # ms) =
     (if up_to \<noteq> start
      then Some (TemplateSyntaxError
        (''Could not parse some characters: '' @ take up_to token @ ''|'' @
           take (start - up_to) (drop up_to token) @ ''|'' @ drop start token))
      else if filter_name \<notin> set registered
      then Some (TemplateSyntaxError (''Invalid filter: '' @ sq @ filter_name @ sq))
      else filters_loop registered token end ms)"

text \<open>
  \<open>FilterExpression(token, parser)\<close>: \<open>None\<close> when the expression compiles, the
  exception otherwise. \<open>registered\<close> are the names of the filters the parser knows.
\<close>

definition FilterExpression :: "string list \<Rightarrow> string \<Rightarrow> error option" where
  "FilterExpression registered token =
     (case (case match_constant token of Some r \<Rightarrow> Some r | None \<Rightarrow> match_var token) of
        Some rest \<Rightarrow>
          (let up_to = length token - length rest
           in filters_loop registered token up_to (finditer up_to 0 rest))
      | None \<Rightarrow>
          (case finditer 0 0 token of
             [] \<Rightarrow> filters_loop registered token 0 []
           | (start, end, filter_name) # ms \<Rightarrow>
               (if 0 \<noteq> start then filters_loop registered token 0 ((start, end, filter_name) # ms)
                else Some (TemplateSyntaxError
                  (''Could not find variable at start of '' @ token @ ''.'')))))"

text \<open>
  The filters a template can use without a \<open>{% load %}\<close> tag: the built-in ones of
  \<open>django/template/defaultfilters.py\<close>. The script writes no \<open>templatetags\<close> module and
  \<open>calendar.html\<close> loads none, so these are all the parser knows.
\<close>

definition builtin_filters :: "string list" where
  "builtin_filters =
     [''addslashes'', ''capfirst'', ''escapejs'', ''json_script'', ''floatformat'', ''iriencode'',
      ''linenumbers'', ''lower'', ''make_list'', ''slugify'', ''stringformat'', ''title'',
      ''truncatechars'', ''truncatechars_html'', ''truncatewords'', ''truncatewords_html'',
      ''upper'', ''urlencode'', ''urlize'', ''urlizetrunc'', ''wordcount'', ''wordwrap'',
      ''ljust'', ''rjust'', ''center'', ''cut'', ''escape'', ''escapeseq'', ''force_escape'',
      ''linebreaks'', ''linebreaksbr'', ''safe'', ''safeseq'', ''striptags'', ''dictsort'',
      ''dictsortreversed'', ''first'', ''join'', ''last'', ''length'', ''length_is'', ''random'',
      ''slice'', ''unordered_list'', ''add'', ''get_digit'', ''date'', ''time'', ''timesince'',
      ''timeuntil'', ''default'', ''default_if_none'', ''divisibleby'', ''yesno'',
      ''filesizeformat'', ''pluralize'', ''phone2numeric'', ''pprint'']"

text \<open>
  The tags of a template, in the order of its text, each with the expressions it holds as
  they are written. The text between the tags plays no part in compiling. A \<open>for\<close> tag
  holds its loop variables and the expression after \<open>in\<close>; an \<open>if\<close> tag holds the
  operands of its condition, the operators (\<open>==\<close>, \<open>is not\<close>) left out.
\<close>

datatype tag =
    extends_tag string
  | block_tag string
  | endblock_tag
  | variable_tag string
  | for_tag "string list" string
  | endfor_tag
  | if_tag "string list"
  | else_tag
  | endif_tag

fun tag_expressions :: "tag \<Rightarrow> string list" where
  "tag_expressions (extends_tag e) = [e]"
| "tag_expressions (variable_tag e) = [e]"
| "tag_expressions (for_tag loopvars e) = [e]"
| "tag_expressions (if_tag es) = es"
| "tag_expressions t = []"

text \<open>
  Compiling: the parser meets the tags in order and compiles each one's expressions as it
  meets it, so the first expression that does not compile ends it with its exception.
\<close>

fun compile_filters :: "string list \<Rightarrow> error option" where
  "compile_filters [] = None"
| "compile_filters (e # es) =
     (case FilterExpression builtin_filters e of
        Some err \<Rightarrow> Some err
      | None \<Rightarrow> compile_filters es)"

definition compile_template :: "tag list \<Rightarrow> error option" where
  "compile_template tags = compile_filters (concat (map tag_expressions tags))"

text \<open>The tags of \<open>booking/templates/calendar.html\<close>, lines 181 to 204 of the script.\<close>

definition calendar_html :: "tag list" where
  "calendar_html =
     [extends_tag (sq @ ''base.html'' @ sq),
      block_tag ''content'',
      variable_tag ''month'', variable_tag ''year'',
      for_tag [''day''] ''days'',
      if_tag [''day.month'', ''month''],
      variable_tag ''day.day'',
      for_tag [''time''] (sq @ ''9am 10am 11am 12pm 1pm 2pm 3pm 4pm'' @ sq @ ''.split''),
      if_tag [''slot_map|get_item:(day,time)''],
      variable_tag ''time'',
      else_tag,
      if_tag [''slot_map|get_item:(day,time)'', ''None''],
      variable_tag (''slot_map|get_item:(day,time)|yesno:'' @ sq @ ''1,0'' @ sq),
      variable_tag ''time'',
      endif_tag, endif_tag, endfor_tag,
      else_tag,
      endif_tag, endfor_tag, endblock_tag]"

text \<open>\<open>render(request, "calendar.html", ctx)\<close>\<close>

definition render_calendar_html :: "calendar_context \<Rightarrow> error + response" where
  "render_calendar_html ctx =
     (case compile_template calendar_html of
        Some err \<Rightarrow> Inl err
      | None \<Rightarrow> Inr (render_calendar ctx))"

subsection \<open>\<open>index\<close>\<close>

text \<open>
  The dictionary comprehension \<open>{(s.date, s.time): s.available for s in slots}\<close>: a later
  row replaces an earlier one with the same key.
\<close>

definition slot_map_of :: "Slot list \<Rightarrow> (date \<times> string \<rightharpoonup> bool)" where
  "slot_map_of rows = fold (\<lambda>s mp. mp((date s, time s) \<mapsto> available s)) rows Map.empty"

text \<open>The view; \<open>today\<close> is the value of \<open>date.today()\<close>.\<close>

definition index :: "date \<Rightarrow> database \<Rightarrow> error + response" where
  "index today db =
     (let y = year today; m = month today
      in case itermonthdates y m of
           Inl e \<Rightarrow> Inl e
         | Inr month_days \<Rightarrow>
            (let rows = filter (\<lambda>s. month (date s) = m) (slots db);
                 slot_map = slot_map_of rows
             in render_calendar_html
                  \<lparr>ctx_days = month_days, ctx_slot_map = slot_map, ctx_month = m, ctx_year = y\<rparr>))"


subsection \<open>A date conversion for the examples\<close>

text \<open>
  One value of the parameter \<open>to_python\<close>: the conversion of the form \<open>YYYY-MM-DD\<close> that
  a browser's date input posts.
\<close>

definition digit :: "char \<Rightarrow> int option" where
  "digit c = (let n = (of_char c :: nat) in if 48 \<le> n \<and> n \<le> 57 then Some (int n - 48) else None)"

fun number :: "int \<Rightarrow> string \<Rightarrow> int option" where
  "number acc [] = Some acc"
| "number acc (c # cs) = (case digit c of None \<Rightarrow> None | Some v \<Rightarrow> number (10 * acc + v) cs)"

definition parse_date :: "string \<Rightarrow> date option" where
  "parse_date s =
     (if length s = 10 \<and> s ! 4 = CHR ''-'' \<and> s ! 7 = CHR ''-'' then
        (case (number 0 (take 4 s), number 0 (take 2 (drop 5 s)), number 0 (drop 8 s)) of
           (Some y, Some m, Some d) \<Rightarrow>
             (case datetime_date y m d of Inl e \<Rightarrow> None | Inr x \<Rightarrow> Some x)
         | _ \<Rightarrow> None)
      else None)"

subsection \<open>Example data\<close>

text \<open>
  The scenario of the spec: one open slot on 2024-06-10 at 9am, a visitor who books it, and
  the owner's form for one more slot on the same date and time.
\<close>

definition june_10 :: date where
  "june_10 = \<lparr>year = 2024, month = 6, day = 10\<rparr>"

definition june_15 :: date where
  "june_15 = \<lparr>year = 2024, month = 6, day = 15\<rparr>"

definition slot_1 :: Slot where
  "slot_1 = \<lparr>pk = 1, date = june_10, time = ''9am'', available = True\<rparr>"



definition db_open :: database where
  "db_open = \<lparr>slots = [slot_1], bookings = [], slot_seq = 1, booking_seq = 0\<rparr>"

definition booking_1 :: Booking where
  "booking_1 = \<lparr>booking_pk = 1, name = ''Alice'', email = ''a@x.com'', slot = 1\<rparr>"

definition db_booked :: database where
  "db_booked =
     \<lparr>slots = [slot_1\<lparr>available := False\<rparr>], bookings = [booking_1], slot_seq = 1, booking_seq = 1\<rparr>"

definition get_request :: request where
  "get_request = \<lparr>request_method = ''GET'', POST = Map.empty, session = Map.empty\<rparr>"

definition booking_form :: request where
  "booking_form =
     \<lparr>request_method = ''POST'', POST = [''name'' \<mapsto> ''Alice'', ''email'' \<mapsto> ''a@x.com''],
      session = Map.empty\<rparr>"

definition slot_form :: "(string \<rightharpoonup> bool) \<Rightarrow> request" where
  "slot_form sess =
     \<lparr>request_method = ''POST'', POST = [''date'' \<mapsto> ''2024-06-10'', ''time'' \<mapsto> ''9am''],
      session = sess\<rparr>"

definition login_form :: "string \<Rightarrow> request" where
  "login_form pw = \<lparr>request_method = ''POST'', POST = [''password'' \<mapsto> pw], session = Map.empty\<rparr>"

section \<open>Properties\<close>

subsection \<open>Facts about the database calls and the steps\<close>

lemma commit_book_slot_writes:
  "commit 2 (book_slot_writes s n e) db =
     Slot_save (s\<lparr>available := False\<rparr>) (snd (Booking_objects_create n e s db))"
  by (simp add: commit_def book_slot_writes_def)

lemma slots_Booking_objects_create [simp]:
  "slots (snd (Booking_objects_create n e s db)) = slots db"
  "slot_seq (snd (Booking_objects_create n e s db)) = slot_seq db"
  "bookings (snd (Booking_objects_create n e s db)) =
     bookings db @ [\<lparr>booking_pk = Suc (booking_seq db), name = n, email = e, slot = pk s\<rparr>]"
  "booking_seq (snd (Booking_objects_create n e s db)) = Suc (booking_seq db)"
  by (simp_all add: Booking_objects_create_def Let_def)

lemma get_object_or_404_Inr:
  "get_object_or_404 db i = Inr s \<Longrightarrow> s \<in> set (slots db) \<and> pk s = i \<and> available s"
proof -
  assume a: "get_object_or_404 db i = Inr s"
  then have "filter (\<lambda>s. pk s = i \<and> available s = True) (slots db) = [s]"
    by (auto simp: get_object_or_404_def split: list.splits)
  then have "s \<in> set (filter (\<lambda>s. pk s = i \<and> available s = True) (slots db))" by simp
  then show ?thesis by simp
qed

lemma book_slot_cases:
  "book_slot req i db = (r, db') \<Longrightarrow>
     db' = db \<or> (\<exists>s n e. get_object_or_404 db i = Inr s \<and> request_method req = ''POST'' \<and>
        POST req ''name'' = Some n \<and> POST req ''email'' = Some e \<and> r = Inr (redirect ''/'') \<and>
        db' = Slot_save (s\<lparr>available := False\<rparr>) (snd (Booking_objects_create n e s db)))"
  by (auto simp: book_slot_def commit_book_slot_writes split: sum.splits if_splits option.splits)

lemma admin_panel_cases:
  "admin_panel tp req db = (r, db') \<Longrightarrow>
     db' = db \<or> (\<exists>d t d'. is_owner (session req) \<and> request_method req = ''POST'' \<and>
        POST req ''date'' = Some d \<and> POST req ''time'' = Some t \<and> tp d = Some d' \<and>
        db' = snd (Slot_objects_create d' t True db) \<and>
        r = Inr (render_admin_panel (order_by_date (slots db'))))"
  by (auto simp: admin_panel_def Let_def split: if_splits option.splits)

lemma Slot_save_existing:
  "s \<in> set (slots db) \<Longrightarrow> pk s' = pk s \<Longrightarrow>
   Slot_save s' db = db\<lparr>slots := map (\<lambda>r. if pk r = pk s then s' else r) (slots db)\<rparr>"
  by (auto simp: Slot_save_def)

lemma wf_db_Slot_objects_create:
  "wf_db db \<Longrightarrow> wf_db (snd (Slot_objects_create d t a db))"
  by (auto simp: wf_db_def Slot_objects_create_def Let_def)

lemma wf_db_Booking_objects_create:
  "wf_db db \<Longrightarrow> wf_db (snd (Booking_objects_create n e s db))"
  by (auto simp: wf_db_def Booking_objects_create_def Let_def)

lemma map_pk_update:
  "pk s' = k \<Longrightarrow> pk \<circ> (\<lambda>r. if pk r = k then s' else r) = pk"
  by (auto simp: fun_eq_iff)

lemma wf_db_Slot_save:
  "wf_db db \<Longrightarrow> s \<in> set (slots db) \<Longrightarrow> pk s' = pk s \<Longrightarrow> wf_db (Slot_save s' db)"
  by (auto simp: Slot_save_existing wf_db_def map_pk_update)

lemma wf_db_step: "wf_db db \<Longrightarrow> wf_db (step tp op db)"
proof (cases op)
  case (op_admin_panel req)
  assume wf: "wf_db db"
  obtain r db' where e: "admin_panel tp req db = (r, db')" by (cases "admin_panel tp req db")
  from admin_panel_cases[OF e] wf show ?thesis
    using op_admin_panel e by (auto simp: wf_db_Slot_objects_create)
next
  case (op_book_slot req i)
  assume wf: "wf_db db"
  obtain r db' where e: "book_slot req i db = (r, db')" by (cases "book_slot req i db")
  from book_slot_cases[OF e] wf show ?thesis
    using op_book_slot e
    by (auto dest!: get_object_or_404_Inr intro!: wf_db_Slot_save[where s="_"] simp: wf_db_Booking_objects_create)
qed simp_all


lemma unique_pk:
  "distinct (map pk rows) \<Longrightarrow> s \<in> set rows \<Longrightarrow> r \<in> set rows \<Longrightarrow> pk r = pk s \<Longrightarrow> r = s"
  by (auto simp: distinct_map dest: inj_onD)

lemma get_object_or_404_Http404:
  "get_object_or_404 db i = Inl Http404 \<longleftrightarrow> \<not> (\<exists>s \<in> set (slots db). pk s = i \<and> available s)"
proof -
  have "get_object_or_404 db i = Inl Http404 \<longleftrightarrow>
          filter (\<lambda>s. pk s = i \<and> available s = True) (slots db) = []"
    by (simp add: get_object_or_404_def split: list.splits)
  then show ?thesis by (auto simp: filter_empty_conv)
qed

lemma slots_book_slot_post:
  assumes wf: "wf_db db" and g: "get_object_or_404 db i = Inr s"
  shows "slots (Slot_save (s\<lparr>available := False\<rparr>) (snd (Booking_objects_create n e s db))) =
           map (\<lambda>r. if pk r = i then r\<lparr>available := False\<rparr> else r) (slots db)"
proof -
  from get_object_or_404_Inr[OF g] have s: "s \<in> set (slots db)" "pk s = i" by simp_all
  from wf have d: "distinct (map pk (slots db))" by (simp add: wf_db_def)
  have "map (\<lambda>r. if pk r = pk s then s\<lparr>available := False\<rparr> else r) (slots db) =
        map (\<lambda>r. if pk r = i then r\<lparr>available := False\<rparr> else r) (slots db)"
    using unique_pk[OF d s(1)] s(2) by (intro map_cong) auto
  then show ?thesis using s by (auto simp: Slot_save_def)
qed

lemma unavailable_flip:
  assumes ex: "\<exists>s \<in> set rows. pk s = i"
    and un: "i = j \<or> (\<forall>s \<in> set rows. pk s = i \<longrightarrow> \<not> available s)"
  shows "(\<exists>s \<in> set (map (\<lambda>r. if pk r = j then r\<lparr>available := False\<rparr> else r) rows). pk s = i) \<and>
         (\<forall>s \<in> set (map (\<lambda>r. if pk r = j then r\<lparr>available := False\<rparr> else r) rows).
            pk s = i \<longrightarrow> \<not> available s)"
proof
  let ?f = "\<lambda>r. if pk r = j then r\<lparr>available := False\<rparr> else r"
  from ex obtain s where s: "s \<in> set rows" "pk s = i" by blast
  then have "?f s \<in> ?f ` set rows" by (intro imageI)
  then have "?f s \<in> set (map ?f rows)" by (simp only: set_map)
  moreover have "pk (?f s) = i" using s by simp
  ultimately show "\<exists>s \<in> set (map ?f rows). pk s = i" by blast
  show "\<forall>s \<in> set (map ?f rows). pk s = i \<longrightarrow> \<not> available s"
    using un by auto
qed

lemma unavailable_after_booking:
  assumes wf: "wf_db db" and g: "get_object_or_404 db i = Inr s"
  shows "unavailable (Slot_save (s\<lparr>available := False\<rparr>) (snd (Booking_objects_create n e s db))) i"
proof -
  from get_object_or_404_Inr[OF g] have "s \<in> set (slots db)" "pk s = i" by simp_all
  then show ?thesis
    unfolding unavailable_def slots_book_slot_post[OF wf g]
    by (intro unavailable_flip) auto
qed

lemma unavailable_step:
  assumes wf: "wf_db db" and u: "unavailable db i"
  shows "unavailable (step tp op db) i"
proof (cases op)
  case (op_admin_panel req)
  obtain r db' where e: "admin_panel tp req db = (r, db')" by (cases "admin_panel tp req db")
  from wf u have "i \<le> slot_seq db" by (auto simp: wf_db_def unavailable_def)
  with admin_panel_cases[OF e] u show ?thesis
    using op_admin_panel e by (auto simp: unavailable_def Slot_objects_create_def Let_def)
next
  case (op_book_slot req j)
  obtain r db' where e: "book_slot req j db = (r, db')" by (cases "book_slot req j db")
  from book_slot_cases[OF e] show ?thesis
  proof
    assume "db' = db" with u op_book_slot e show ?thesis by simp
  next
    assume "\<exists>s n e. get_object_or_404 db j = Inr s \<and> request_method req = ''POST'' \<and>
        POST req ''name'' = Some n \<and> POST req ''email'' = Some e \<and> r = Inr (redirect ''/'') \<and>
        db' = Slot_save (s\<lparr>available := False\<rparr>) (snd (Booking_objects_create n e s db))"
    then obtain s n e' where g: "get_object_or_404 db j = Inr s"
      and d: "db' = Slot_save (s\<lparr>available := False\<rparr>) (snd (Booking_objects_create n e' s db))"
      by blast
    have sl: "slots db' = map (\<lambda>r. if pk r = j then r\<lparr>available := False\<rparr> else r) (slots db)"
      unfolding d by (rule slots_book_slot_post[OF wf g])
    have "unavailable db' i" unfolding unavailable_def sl
      using u[unfolded unavailable_def] by (intro unavailable_flip) simp_all
    with op_book_slot e show ?thesis by simp
  qed
qed (use u in simp_all)

lemma wf_db_run: "wf_db db \<Longrightarrow> wf_db (run tp ops db)"
  unfolding run_def by (induction ops arbitrary: db) (simp_all add: wf_db_step)

lemma unavailable_run: "wf_db db \<Longrightarrow> unavailable db i \<Longrightarrow> unavailable (run tp ops db) i"
  unfolding run_def by (induction ops arbitrary: db) (simp_all add: wf_db_step unavailable_step)

lemma unavailable_Http404: "unavailable db i \<Longrightarrow> get_object_or_404 db i = Inl Http404"
  by (auto simp: get_object_or_404_Http404 unavailable_def)

subsection \<open>The example data, evaluated\<close>

lemma parse_date_example: "parse_date ''2024-06-10'' = Some june_10"
  by (simp add: june_10_def) code_simp

lemma wf_db_open: "wf_db db_open"
  by (simp add: wf_db_def db_open_def slot_1_def)

lemma get_object_or_404_db_open: "get_object_or_404 db_open 1 = Inr slot_1"
  by (simp add: get_object_or_404_def db_open_def slot_1_def)

lemma book_slot_example: "book_slot booking_form 1 db_open = (Inr (redirect ''/''), db_booked)"
  unfolding book_slot_def get_object_or_404_db_open
  by (simp add: booking_form_def commit_book_slot_writes Booking_objects_create_def Slot_save_def
      Let_def db_open_def db_booked_def booking_1_def slot_1_def)

lemma book_slot_get_example: "book_slot get_request 1 db_open = (Inr (render_book slot_1), db_open)"
  unfolding book_slot_def get_object_or_404_db_open by (simp add: get_request_def)

subsection \<open>The Unauthorized path of the admin panel\<close>

text \<open>
  Claim C6. A POST to \<open>/admin_panel/\<close> from a session whose \<open>is_owner\<close> flag is not set
  answers with a redirect to \<open>/login/\<close> and returns the database it was given: no Slot is
  created and nothing persisted changes. The view has no session result, so the session is
  untouched as well.
\<close>

theorem admin_panel_unauthorized:
  assumes "request_method req = ''POST''" and "\<not> is_owner (session req)"
  shows "admin_panel to_python req db = (Inr (redirect ''/login/''), db)"
  using assms by (simp add: admin_panel_def)

theorem admin_panel_unauthorized_witness:
  "request_method (slot_form Map.empty) = ''POST'' \<and> \<not> is_owner (session (slot_form Map.empty)) \<and>
   admin_panel parse_date (slot_form Map.empty) db_open = (Inr (redirect ''/login/''), db_open)"
  using admin_panel_unauthorized [of "slot_form Map.empty" parse_date db_open]
  by (simp add: slot_form_def is_owner_def)

subsection \<open>The lookup of the booking flow\<close>

text \<open>
  Claim C3. In a database that keeps its primary keys unique, the lookup
  \<open>get_object_or_404(Slot, id=slot_id, available=True)\<close> is \<open>Http404\<close> exactly when no
  Slot has the key or the Slot with the key is not available. \<open>book_slot\<close> makes this
  lookup first whatever the method, and answers \<open>Http404\<close> exactly when the lookup does.
  After a POST that booked the slot, every later \<open>book_slot\<close> for the same key, after any
  sequence of the exposed operations, is \<open>Http404\<close> and leaves the database as it is.
\<close>

theorem get_object_or_404_not_found:
  assumes wf: "wf_db db"
  shows "(get_object_or_404 db i = Inl Http404 \<longleftrightarrow>
            (\<not> (\<exists>s \<in> set (slots db). pk s = i) \<or> (\<exists>s \<in> set (slots db). pk s = i \<and> \<not> available s))) \<and>
         (\<forall>req. fst (book_slot req i db) = Inl Http404 \<longleftrightarrow> get_object_or_404 db i = Inl Http404) \<and>
         (\<forall>req resp db'. request_method req = ''POST'' \<longrightarrow> book_slot req i db = (Inr resp, db') \<longrightarrow>
            (\<forall>ops req'. book_slot req' i (run to_python ops db') = (Inl Http404, run to_python ops db')))"
proof (intro conjI allI impI)
  from wf have d: "distinct (map pk (slots db))" by (simp add: wf_db_def)
  show "get_object_or_404 db i = Inl Http404 \<longleftrightarrow>
            (\<not> (\<exists>s \<in> set (slots db). pk s = i) \<or> (\<exists>s \<in> set (slots db). pk s = i \<and> \<not> available s))"
    unfolding get_object_or_404_Http404 using unique_pk[OF d] by blast
next
  fix req
  show "fst (book_slot req i db) = Inl Http404 \<longleftrightarrow> get_object_or_404 db i = Inl Http404"
    by (auto simp: book_slot_def split: sum.splits option.splits)
next
  fix req resp db' ops req'
  assume m: "request_method req = ''POST''" and b: "book_slot req i db = (Inr resp, db')"
  from b m obtain s n e where g: "get_object_or_404 db i = Inr s"
    and d: "db' = Slot_save (s\<lparr>available := False\<rparr>) (snd (Booking_objects_create n e s db))"
    by (auto simp: book_slot_def commit_book_slot_writes split: sum.splits option.splits)
  have u: "unavailable db' i" unfolding d by (rule unavailable_after_booking[OF wf g])
  have wf': "wf_db db'" using wf_db_step[OF wf, of to_python "op_book_slot req i"] b by simp
  have "unavailable (run to_python ops db') i" by (rule unavailable_run[OF wf' u])
  then have "get_object_or_404 (run to_python ops db') i = Inl Http404" by (rule unavailable_Http404)
  then show "book_slot req' i (run to_python ops db') = (Inl Http404, run to_python ops db')"
    by (simp add: book_slot_def)
qed

theorem get_object_or_404_not_found_witness:
  "wf_db db_open \<and> get_object_or_404 db_open 1 \<noteq> Inl Http404 \<and>
   get_object_or_404 db_booked 1 = Inl Http404 \<and> get_object_or_404 db_open 2 = Inl Http404 \<and>
   book_slot booking_form 1 db_open = (Inr (redirect ''/''), db_booked) \<and>
   book_slot booking_form 1 db_booked = (Inl Http404, db_booked) \<and>
   book_slot booking_form 1 (run parse_date [op_book_slot booking_form 1] db_booked) =
     (Inl Http404, run parse_date [op_book_slot booking_form 1] db_booked)"
proof -
  have w: "wf_db db_open" by (rule wf_db_open)
  have wb: "wf_db db_booked" by (simp add: wf_db_def db_booked_def slot_1_def booking_1_def)
  note t = get_object_or_404_not_found [OF w, of _ parse_date]
  note tb = get_object_or_404_not_found [OF wb, of 1 parse_date]
  have b: "book_slot booking_form 1 db_open = (Inr (redirect ''/''), db_booked)" by (rule book_slot_example)
  have m: "request_method booking_form = ''POST''" by (simp add: booking_form_def)
  have 1: "get_object_or_404 db_open 1 \<noteq> Inl Http404"
    using t[of 1, THEN conjunct1] by (simp add: db_open_def slot_1_def)
  have 2: "get_object_or_404 db_booked 1 = Inl Http404"
    using tb[THEN conjunct1] by (simp add: db_booked_def slot_1_def)
  have 3: "get_object_or_404 db_open 2 = Inl Http404"
    using t[of 2, THEN conjunct1] by (simp add: db_open_def slot_1_def)
  have 4: "book_slot booking_form 1 (run parse_date ops db_booked) = (Inl Http404, run parse_date ops db_booked)" for ops
    using t[of 1, THEN conjunct2, THEN conjunct2] m b by blast
  have 5: "book_slot booking_form 1 db_booked = (Inl Http404, db_booked)"
    using 4[of "[]"] by (simp add: run_def)
  show ?thesis using w 1 2 3 b 5 4 by simp
qed

subsection \<open>What a step does to a stored slot\<close>

lemma step_slot_kept_or_booked:
  assumes wf: "wf_db db" and s: "s \<in> set (slots db)"
  shows "s \<in> set (slots (step tp op db)) \<or>
         ((\<exists>req. op = op_book_slot req (pk s)) \<and> available s \<and>
          s\<lparr>available := False\<rparr> \<in> set (slots (step tp op db)))"
proof (cases op)
  case (op_admin_panel req)
  obtain r db' where e: "admin_panel tp req db = (r, db')" by (cases "admin_panel tp req db")
  from admin_panel_cases[OF e] s show ?thesis
    using op_admin_panel e by (auto simp: Slot_objects_create_def Let_def)
next
  case (op_book_slot req j)
  obtain r db' where e: "book_slot req j db = (r, db')" by (cases "book_slot req j db")
  from book_slot_cases[OF e] show ?thesis
  proof
    assume "db' = db" with s op_book_slot e show ?thesis by simp
  next
    assume "\<exists>s n e. get_object_or_404 db j = Inr s \<and> request_method req = ''POST'' \<and>
        POST req ''name'' = Some n \<and> POST req ''email'' = Some e \<and> r = Inr (redirect ''/'') \<and>
        db' = Slot_save (s\<lparr>available := False\<rparr>) (snd (Booking_objects_create n e s db))"
    then obtain s0 n e' where g: "get_object_or_404 db j = Inr s0"
      and d: "db' = Slot_save (s0\<lparr>available := False\<rparr>) (snd (Booking_objects_create n e' s0 db))"
      by blast
    let ?f = "\<lambda>r. if pk r = j then r\<lparr>available := False\<rparr> else r"
    have sl: "slots db' = map ?f (slots db)"
      unfolding d by (rule slots_book_slot_post[OF wf g])
    from s have "?f s \<in> ?f ` set (slots db)" by (intro imageI)
    then have in': "?f s \<in> set (slots db')" by (simp only: sl set_map)
    show ?thesis
    proof (cases "pk s = j")
      case True
      from wf have dist: "distinct (map pk (slots db))" by (simp add: wf_db_def)
      from get_object_or_404_Inr[OF g] have s0: "s0 \<in> set (slots db)" "pk s0 = j" "available s0"
        by simp_all
      have "s = s0" using unique_pk[OF dist s0(1) s] True s0(2) by simp
      with s0 True in' op_book_slot e show ?thesis by auto
    next
      case False
      with in' op_book_slot e show ?thesis by simp
    qed
  qed
qed (use s in simp_all)

lemma book_slot_post_Inr:
  assumes "request_method req = ''POST''" and "book_slot req i db = (Inr resp, db')"
  shows "\<exists>s n e. get_object_or_404 db i = Inr s \<and> POST req ''name'' = Some n \<and>
           POST req ''email'' = Some e \<and> resp = redirect ''/'' \<and>
           db' = Slot_save (s\<lparr>available := False\<rparr>) (snd (Booking_objects_create n e s db))"
  using assms by (auto simp: book_slot_def commit_book_slot_writes split: sum.splits option.splits)

lemma bookings_Slot_save [simp]: "bookings (Slot_save s db) = bookings db"
  "booking_seq (Slot_save s db) = booking_seq db"
  by (simp_all add: Slot_save_def)

lemma slot_seq_Slot_save_existing:
  "s \<in> set (slots db) \<Longrightarrow> pk s' = pk s \<Longrightarrow> slot_seq (Slot_save s' db) = slot_seq db"
  by (simp add: Slot_save_existing)

subsection \<open>A booked slot stays unavailable\<close>

text \<open>
  Claim C1. In a database that keeps its primary keys unique, a POST to \<open>book_slot\<close> that
  succeeds for the key \<open>i\<close> leaves a Booking that refers to \<open>i\<close> and the Slot \<open>i\<close>
  unavailable, and the Slot is unavailable in every state that any sequence of the four
  exposed operations (\<open>index\<close>, \<open>admin_login\<close>, \<open>admin_panel\<close>, \<open>book_slot\<close>) reaches
  from there. No step writes \<open>available\<close> back: one step of any operation keeps every
  stored Slot as it is, except that \<open>book_slot\<close> for the Slot's own key may replace it by
  the same Slot with \<open>available\<close> false.
\<close>

theorem booked_slot_stays_unavailable:
  assumes wf: "wf_db db" and m: "request_method req = ''POST''"
    and b: "book_slot req i db = (Inr resp, db')"
  shows "(\<exists>bk \<in> set (bookings db'). slot bk = i) \<and> unavailable db' i \<and>
         (\<forall>ops. unavailable (run to_python ops db') i) \<and>
         (\<forall>d op s. wf_db d \<longrightarrow> s \<in> set (slots d) \<longrightarrow>
            s \<in> set (slots (step to_python op d)) \<or>
            ((\<exists>r. op = op_book_slot r (pk s)) \<and>
             s\<lparr>available := False\<rparr> \<in> set (slots (step to_python op d))))"
proof -
  from book_slot_post_Inr[OF m b] obtain s n e where g: "get_object_or_404 db i = Inr s"
    and d: "db' = Slot_save (s\<lparr>available := False\<rparr>) (snd (Booking_objects_create n e s db))"
    by blast
  from get_object_or_404_Inr[OF g] have pk: "pk s = i" by simp
  have bk: "\<exists>bk \<in> set (bookings db'). slot bk = i" unfolding d using pk by simp
  have u: "unavailable db' i" unfolding d by (rule unavailable_after_booking[OF wf g])
  have wf': "wf_db db'" using wf_db_step[OF wf, of to_python "op_book_slot req i"] b by simp
  have r: "\<forall>ops. unavailable (run to_python ops db') i"
    using unavailable_run[OF wf' u] by blast
  have k: "\<forall>d op s. wf_db d \<longrightarrow> s \<in> set (slots d) \<longrightarrow>
            s \<in> set (slots (step to_python op d)) \<or>
            ((\<exists>r. op = op_book_slot r (pk s)) \<and>
             s\<lparr>available := False\<rparr> \<in> set (slots (step to_python op d)))"
    using step_slot_kept_or_booked by blast
  from bk u r k show ?thesis by blast
qed

lemma wf_db_booked: "wf_db db_booked"
  by (simp add: wf_db_def db_booked_def slot_1_def booking_1_def)

lemma is_owner_example: "is_owner [''is_owner'' \<mapsto> True]" "\<not> is_owner Map.empty"
  by (simp_all add: is_owner_def)

theorem booked_slot_stays_unavailable_witness:
  "wf_db db_open \<and> request_method booking_form = ''POST'' \<and>
   book_slot booking_form 1 db_open = (Inr (redirect ''/''), db_booked) \<and>
   unavailable db_booked 1 \<and>
   unavailable (run parse_date
      [op_admin_panel (slot_form [''is_owner'' \<mapsto> True]), op_book_slot booking_form 1,
       op_book_slot booking_form 2, op_index june_10] db_booked) 1"
proof -
  have m: "request_method booking_form = ''POST''" by (simp add: booking_form_def)
  note t = booked_slot_stays_unavailable [OF wf_db_open m book_slot_example, of parse_date]
  from t have "unavailable db_booked 1" by blast
  moreover from t have "unavailable (run parse_date ops db_booked) 1" for ops by blast
  ultimately show ?thesis using wf_db_open m book_slot_example by blast
qed

subsection \<open>The frame of the booking flow\<close>

text \<open>
  Claim C9. \<open>book_slot\<close> on a request that is not a POST (a GET) returns the database it
  was given. A POST that succeeds for the key \<open>i\<close> changes the Slot table only in the
  \<open>available\<close> field of the row with key \<open>i\<close>: every other row, and the key, date and
  time of that row, are as before, and no row is added. It appends exactly one Booking,
  for \<open>i\<close> with the posted name and email, after the Bookings that were there, which are
  unchanged.
\<close>

theorem book_slot_frame:
  assumes wf: "wf_db db"
  shows "(request_method req \<noteq> ''POST'' \<longrightarrow> snd (book_slot req i db) = db) \<and>
         (request_method req = ''POST'' \<longrightarrow> book_slot req i db = (Inr resp, db') \<longrightarrow>
            slots db' = map (\<lambda>r. if pk r = i then r\<lparr>available := False\<rparr> else r) (slots db) \<and>
            slot_seq db' = slot_seq db \<and>
            (\<exists>bk. bookings db' = bookings db @ [bk] \<and> slot bk = i \<and>
               POST req ''name'' = Some (name bk) \<and> POST req ''email'' = Some (email bk)))"
proof (intro conjI impI)
  assume "request_method req \<noteq> ''POST''"
  then show "snd (book_slot req i db) = db"
    by (simp add: book_slot_def split: sum.splits)
next
  assume m: "request_method req = ''POST''" and b: "book_slot req i db = (Inr resp, db')"
  from book_slot_post_Inr[OF m b] obtain s n e where g: "get_object_or_404 db i = Inr s"
    and n: "POST req ''name'' = Some n" and e: "POST req ''email'' = Some e"
    and d: "db' = Slot_save (s\<lparr>available := False\<rparr>) (snd (Booking_objects_create n e s db))"
    by blast
  from get_object_or_404_Inr[OF g] have s: "s \<in> set (slots db)" "pk s = i" by simp_all
  show "slots db' = map (\<lambda>r. if pk r = i then r\<lparr>available := False\<rparr> else r) (slots db)"
    unfolding d by (rule slots_book_slot_post[OF wf g])
  show "slot_seq db' = slot_seq db"
    unfolding d using s by (simp add: slot_seq_Slot_save_existing[where s=s])
  show "\<exists>bk. bookings db' = bookings db @ [bk] \<and> slot bk = i \<and>
               POST req ''name'' = Some (name bk) \<and> POST req ''email'' = Some (email bk)"
    unfolding d using s n e by simp
qed

theorem book_slot_frame_witness:
  "wf_db db_open \<and> request_method get_request \<noteq> ''POST'' \<and>
   snd (book_slot get_request 1 db_open) = db_open \<and>
   request_method booking_form = ''POST'' \<and>
   book_slot booking_form 1 db_open = (Inr (redirect ''/''), db_booked) \<and>
   slots db_booked = map (\<lambda>r. if pk r = 1 then r\<lparr>available := False\<rparr> else r) (slots db_open) \<and>
   bookings db_booked = bookings db_open @ [booking_1]"
proof -
  have m: "request_method booking_form = ''POST''" by (simp add: booking_form_def)
  have g: "request_method get_request \<noteq> ''POST''" by (simp add: get_request_def)
  from book_slot_frame [OF wf_db_open, of get_request 1] g
  have 1: "snd (book_slot get_request 1 db_open) = db_open" by blast
  from book_slot_frame [OF wf_db_open, of booking_form 1 "redirect ''/''" db_booked] m book_slot_example
  have 2: "slots db_booked = map (\<lambda>r. if pk r = 1 then r\<lparr>available := False\<rparr> else r) (slots db_open)"
    by blast
  have 3: "bookings db_booked = bookings db_open @ [booking_1]"
    by (simp add: db_booked_def db_open_def)
  from wf_db_open g 1 m book_slot_example 2 3 show ?thesis by blast
qed

subsection \<open>Slots for a date and time that is taken\<close>

text \<open>
  Claim C7. \<open>admin_panel\<close> checks nothing about the date and time it is given: for every
  stored Slot, a POST from an owner session whose date converts to that Slot's date and
  whose time is that Slot's time succeeds, and appends a second Slot with the same date and
  time, \<open>available\<close> true, and a primary key that no stored Slot has.
\<close>

theorem admin_panel_duplicate_slot:
  assumes wf: "wf_db db" and s: "s \<in> set (slots db)"
    and o: "is_owner (session req)" and m: "request_method req = ''POST''"
    and d: "POST req ''date'' = Some d" and p: "to_python d = Some (date s)"
    and t: "POST req ''time'' = Some (time s)"
  shows "\<exists>s'. admin_panel to_python req db =
            (Inr (render_admin_panel (order_by_date (slots db @ [s']))),
             db\<lparr>slots := slots db @ [s'], slot_seq := pk s'\<rparr>) \<and>
          date s' = date s \<and> time s' = time s \<and> available s' \<and>
          pk s' \<noteq> pk s \<and> pk s' \<notin> pk ` set (slots db)"
proof -
  let ?s' = "\<lparr>pk = Suc (slot_seq db), date = date s, time = time s, available = True\<rparr>"
  from wf have le: "\<forall>r \<in> set (slots db). pk r \<le> slot_seq db" by (simp add: wf_db_def)
  have fresh: "pk ?s' \<notin> pk ` set (slots db)" using le by auto
  with s have ne: "pk ?s' \<noteq> pk s" by blast
  have "admin_panel to_python req db =
          (Inr (render_admin_panel (order_by_date (slots db @ [?s']))),
           db\<lparr>slots := slots db @ [?s'], slot_seq := pk ?s'\<rparr>)"
    using o m d p t by (simp add: admin_panel_def Slot_objects_create_def Let_def)
  with fresh ne show ?thesis by (intro exI[of _ ?s']) simp
qed

theorem admin_panel_duplicate_slot_witness:
  "wf_db db_open \<and> slot_1 \<in> set (slots db_open) \<and>
   (\<exists>s'. snd (admin_panel parse_date (slot_form [''is_owner'' \<mapsto> True]) db_open) =
            db_open\<lparr>slots := [slot_1, s'], slot_seq := pk s'\<rparr> \<and>
          date s' = date slot_1 \<and> time s' = time slot_1 \<and> available s' \<and> pk s' \<noteq> pk slot_1)"
proof -
  have s: "slot_1 \<in> set (slots db_open)" by (simp add: db_open_def)
  have o: "is_owner (session (slot_form [''is_owner'' \<mapsto> True]))"
    by (simp add: slot_form_def is_owner_def)
  have m: "request_method (slot_form [''is_owner'' \<mapsto> True]) = ''POST''"
    by (simp add: slot_form_def)
  have d: "POST (slot_form [''is_owner'' \<mapsto> True]) ''date'' = Some ''2024-06-10''"
    by (simp add: slot_form_def)
  have p: "parse_date ''2024-06-10'' = Some (date slot_1)"
    by (simp add: parse_date_example slot_1_def)
  have t: "POST (slot_form [''is_owner'' \<mapsto> True]) ''time'' = Some (time slot_1)"
    by (simp add: slot_form_def slot_1_def)
  from admin_panel_duplicate_slot [where to_python = parse_date, OF wf_db_open s o m d p t]
  obtain s' where "admin_panel parse_date (slot_form [''is_owner'' \<mapsto> True]) db_open =
            (Inr (render_admin_panel (order_by_date (slots db_open @ [s']))),
             db_open\<lparr>slots := slots db_open @ [s'], slot_seq := pk s'\<rparr>)"
     and "date s' = date slot_1" "time s' = time slot_1" "available s'" "pk s' \<noteq> pk slot_1"
    by blast
  then have "snd (admin_panel parse_date (slot_form [''is_owner'' \<mapsto> True]) db_open) =
            db_open\<lparr>slots := [slot_1, s'], slot_seq := pk s'\<rparr> \<and>
          date s' = date slot_1 \<and> time s' = time slot_1 \<and> available s' \<and> pk s' \<noteq> pk slot_1"
    by (simp add: db_open_def)
  then show ?thesis using wf_db_open s by blast
qed

subsection \<open>The owner session gate\<close>

text \<open>
  Claim C5. A POST to \<open>admin_login\<close> with the owner password answers with a redirect to
  \<open>/admin_panel/\<close> and sets \<open>is_owner\<close> in the session; with that session \<open>admin_panel\<close>
  never answers with the redirect to \<open>/login/\<close>, and renders the slot list on a GET. With
  any other password (or none), a session in which the flag was not set is returned as it
  was, the login form is rendered, and \<open>admin_panel\<close> with that session redirects to
  \<open>/login/\<close> and leaves the database as it is.
\<close>

theorem admin_login_gate:
  "(request_method req = ''POST'' \<and> POST req ''password'' = Some OWNER_PASSWORD \<longrightarrow>
      fst (admin_login req) = redirect ''/admin_panel/'' \<and> is_owner (snd (admin_login req)) \<and>
      (\<forall>req' db. session req' = snd (admin_login req) \<longrightarrow>
         fst (admin_panel to_python req' db) \<noteq> Inr (redirect ''/login/'') \<and>
         (request_method req' \<noteq> ''POST'' \<longrightarrow>
            admin_panel to_python req' db = (Inr (render_admin_panel (order_by_date (slots db))), db)))) \<and>
   (\<not> is_owner (session req) \<and> POST req ''password'' \<noteq> Some OWNER_PASSWORD \<longrightarrow>
      admin_login req = (render_login, session req) \<and> \<not> is_owner (snd (admin_login req)) \<and>
      (\<forall>req' db. session req' = snd (admin_login req) \<longrightarrow>
         admin_panel to_python req' db = (Inr (redirect ''/login/''), db)))"
proof (intro conjI impI allI)
  assume a: "request_method req = ''POST'' \<and> POST req ''password'' = Some OWNER_PASSWORD"
  then show "fst (admin_login req) = redirect ''/admin_panel/''" by (simp add: admin_login_def)
  from a show o: "is_owner (snd (admin_login req))" by (simp add: admin_login_def is_owner_def)
  fix req' :: request and db :: database
  assume s: "session req' = snd (admin_login req)"
  with o have o': "is_owner (session req')" by simp
  then show "fst (admin_panel to_python req' db) \<noteq> Inr (redirect ''/login/'')"
    by (simp add: admin_panel_def Let_def split: option.splits)
  assume "request_method req' \<noteq> ''POST''"
  with o' show "admin_panel to_python req' db = (Inr (render_admin_panel (order_by_date (slots db))), db)"
    by (simp add: admin_panel_def)
next
  assume a: "\<not> is_owner (session req) \<and> POST req ''password'' \<noteq> Some OWNER_PASSWORD"
  then show l: "admin_login req = (render_login, session req)" by (simp add: admin_login_def)
  with a show n: "\<not> is_owner (snd (admin_login req))" by simp
  fix req' :: request and db :: database
  assume "session req' = snd (admin_login req)"
  with n show "admin_panel to_python req' db = (Inr (redirect ''/login/''), db)"
    by (simp add: admin_panel_def)
qed

theorem admin_login_gate_witness:
  "admin_login (login_form ''admin123'') = (redirect ''/admin_panel/'', [''is_owner'' \<mapsto> True]) \<and>
   admin_panel parse_date (get_request\<lparr>session := [''is_owner'' \<mapsto> True]\<rparr>) db_open =
     (Inr (render_admin_panel (order_by_date (slots db_open))), db_open) \<and>
   admin_login (login_form ''admin'') = (render_login, Map.empty) \<and>
   admin_panel parse_date (get_request\<lparr>session := Map.empty\<rparr>) db_open =
     (Inr (redirect ''/login/''), db_open)"
proof -
  have 1: "admin_login (login_form ''admin123'') = (redirect ''/admin_panel/'', [''is_owner'' \<mapsto> True])"
    by (simp add: admin_login_def login_form_def OWNER_PASSWORD_def)
  have g: "request_method (get_request\<lparr>session := sess\<rparr>) \<noteq> ''POST''" for sess
    by (simp add: get_request_def)
  have p: "request_method (login_form ''admin123'') = ''POST'' \<and>
           POST (login_form ''admin123'') ''password'' = Some OWNER_PASSWORD"
    by (simp add: login_form_def OWNER_PASSWORD_def)
  have 2: "admin_panel parse_date (get_request\<lparr>session := [''is_owner'' \<mapsto> True]\<rparr>) db_open =
     (Inr (render_admin_panel (order_by_date (slots db_open))), db_open)"
    using admin_login_gate [of "login_form ''admin123''" parse_date, THEN conjunct1] p 1 g
    by simp
  have q: "\<not> is_owner (session (login_form ''admin'')) \<and>
           POST (login_form ''admin'') ''password'' \<noteq> Some OWNER_PASSWORD"
    by (simp add: login_form_def OWNER_PASSWORD_def is_owner_def)
  from admin_login_gate [of "login_form ''admin''" parse_date, THEN conjunct2] q
  have 3: "admin_login (login_form ''admin'') = (render_login, session (login_form ''admin''))"
    and 4: "\<And>req' db. session req' = snd (admin_login (login_form ''admin'')) \<Longrightarrow>
         admin_panel parse_date req' db = (Inr (redirect ''/login/''), db)"
    by blast+
  from 3 have e3: "admin_login (login_form ''admin'') = (render_login, Map.empty)"
    by (simp add: login_form_def)
  have 5: "admin_panel parse_date (get_request\<lparr>session := Map.empty\<rparr>) db_open =
     (Inr (redirect ''/login/''), db_open)"
    by (rule 4) (simp add: e3)
  from 1 2 e3 5 show ?thesis by blast
qed

subsection \<open>The slot list of the admin panel\<close>

lemma date_le_total: "\<not> date_le a b \<Longrightarrow> date_le b a"
  by (auto simp: date_le_def)

lemma date_le_trans: "date_le a b \<Longrightarrow> date_le b c \<Longrightarrow> date_le a c"
  by (auto simp: date_le_def)

lemma set_insert_by_date: "set (insert_by_date s rows) = insert s (set rows)"
  by (induction rows) auto

lemma mset_insert_by_date: "mset (insert_by_date s rows) = add_mset s (mset rows)"
  by (induction rows) auto

lemma sorted_insert_by_date:
  "sorted_wrt (\<lambda>a b. date_le (date a) (date b)) rows \<Longrightarrow>
   sorted_wrt (\<lambda>a b. date_le (date a) (date b)) (insert_by_date s rows)"
proof (induction rows)
  case Nil
  then show ?case by simp
next
  case (Cons r rows)
  show ?case
  proof (cases "date_le (date s) (date r)")
    case True
    with Cons.prems show ?thesis by (auto intro: date_le_trans)
  next
    case False
    then have "date_le (date r) (date s)" by (rule date_le_total)
    with Cons False show ?thesis by (auto simp: set_insert_by_date)
  qed
qed

lemma mset_order_by_date: "mset (order_by_date rows) = mset rows"
  unfolding order_by_date_def by (induction rows) (simp_all add: mset_insert_by_date)

lemma sorted_order_by_date:
  "sorted_wrt (\<lambda>a b. date_le (date a) (date b)) (order_by_date rows)"
  unfolding order_by_date_def by (induction rows) (simp_all add: sorted_insert_by_date)

text \<open>
  Claim C8. The slot list is ordered by date, ascending: \<open>order_by_date\<close> returns exactly
  the rows it is given (as a multiset), and of every two adjacent rows of its result the
  first has a date less than or equal to the second's. Whenever \<open>admin_panel\<close> renders for
  an owner session, the list it renders is \<open>order_by_date\<close> of the Slots stored when it
  returns.
\<close>

theorem order_by_date_ascending:
  "mset (order_by_date rows) = mset rows \<and>
   (\<forall>k. Suc k < length (order_by_date rows) \<longrightarrow>
      date_le (date (order_by_date rows ! k)) (date (order_by_date rows ! Suc k))) \<and>
   (is_owner (session req) \<longrightarrow> admin_panel to_python req db = (Inr resp, db') \<longrightarrow>
      resp = render_admin_panel (order_by_date (slots db')))"
proof (intro conjI allI impI)
  show "mset (order_by_date rows) = mset rows" by (rule mset_order_by_date)
next
  fix k assume "Suc k < length (order_by_date rows)"
  with sorted_order_by_date[of rows]
  show "date_le (date (order_by_date rows ! k)) (date (order_by_date rows ! Suc k))"
    by (simp add: sorted_wrt_iff_nth_less)
next
  assume "is_owner (session req)" and "admin_panel to_python req db = (Inr resp, db')"
  then show "resp = render_admin_panel (order_by_date (slots db'))"
    by (auto simp: admin_panel_def Slot_objects_create_def Let_def split: if_splits option.splits)
qed

theorem order_by_date_ascending_witness:
  "order_by_date [slot_1, slot_1\<lparr>pk := 2, date := \<lparr>year = 2024, month = 5, day = 31\<rparr>\<rparr>] =
     [slot_1\<lparr>pk := 2, date := \<lparr>year = 2024, month = 5, day = 31\<rparr>\<rparr>, slot_1] \<and>
   date_le \<lparr>year = 2024, month = 5, day = 31\<rparr> june_10 \<and>
   admin_panel parse_date (get_request\<lparr>session := [''is_owner'' \<mapsto> True]\<rparr>) db_open =
     (Inr (render_admin_panel (order_by_date (slots db_open))), db_open)"
proof -
  let ?a = "slot_1\<lparr>pk := 2, date := \<lparr>year = 2024, month = 5, day = 31\<rparr>\<rparr>"
  have e: "order_by_date [slot_1, ?a] = [?a, slot_1]"
    by (simp add: order_by_date_def date_le_def slot_1_def june_10_def)
  have o: "is_owner (session (get_request\<lparr>session := [''is_owner'' \<mapsto> True]\<rparr>))"
    by (simp add: is_owner_def)
  have p: "admin_panel parse_date (get_request\<lparr>session := [''is_owner'' \<mapsto> True]\<rparr>) db_open =
     (Inr (render_admin_panel (order_by_date (slots db_open))), db_open)"
    by (simp add: admin_panel_def is_owner_def get_request_def)
  note t = order_by_date_ascending [of "[slot_1, ?a]" "get_request\<lparr>session := [''is_owner'' \<mapsto> True]\<rparr>"
      parse_date db_open "render_admin_panel (order_by_date (slots db_open))" db_open]
  from t have "Suc 0 < length (order_by_date [slot_1, ?a]) \<longrightarrow>
      date_le (date (order_by_date [slot_1, ?a] ! 0)) (date (order_by_date [slot_1, ?a] ! Suc 0))"
    by blast
  then have d: "date_le \<lparr>year = 2024, month = 5, day = 31\<rparr> june_10"
    unfolding e by (simp add: slot_1_def)
  from e d p show ?thesis by blast
qed

subsection \<open>The two writes of a booking\<close>

lemma commit_1_book_slot_writes:
  "commit (Suc 0) (book_slot_writes s n e) db = snd (Booking_objects_create n e s db)"
  by (simp add: commit_def book_slot_writes_def)

lemma get_object_or_404_slots:
  "slots db' = slots db \<Longrightarrow> get_object_or_404 db' i = get_object_or_404 db i"
  by (simp add: get_object_or_404_def)

text \<open>
  Claim C4, as amended. The POST branch of \<open>book_slot\<close>, for a Slot that is available,
  makes two separate writes, each committed on its own: first it creates the Booking, then
  it saves the Slot with \<open>available\<close> false. When only the first write is committed (an
  interruption between the two), the Slot table is as before, so the Slot is still
  available and the lookup of the booking flow still returns it, while a Booking that
  refers to it is stored: booking creation is the write that precedes the availability
  flip. When both are committed the Slot is unavailable and has its Booking.
\<close>

theorem book_slot_interrupted:
  assumes wf: "wf_db db" and g: "get_object_or_404 db i = Inr s"
    and m: "request_method req = ''POST''"
    and n: "POST req ''name'' = Some n" and e: "POST req ''email'' = Some e"
  shows "book_slot req i db = (Inr (redirect ''/''), commit 2 (book_slot_writes s n e) db) \<and>
         length (book_slot_writes s n e) = 2 \<and>
         slots (commit 1 (book_slot_writes s n e) db) = slots db \<and>
         get_object_or_404 (commit 1 (book_slot_writes s n e) db) i = Inr s \<and>
         (\<exists>bk \<in> set (bookings (commit 1 (book_slot_writes s n e) db)). slot bk = i) \<and>
         unavailable (commit 2 (book_slot_writes s n e) db) i \<and>
         (\<exists>bk \<in> set (bookings (commit 2 (book_slot_writes s n e) db)). slot bk = i)"
proof (intro conjI)
  show "book_slot req i db = (Inr (redirect ''/''), commit 2 (book_slot_writes s n e) db)"
    using g m n e by (simp add: book_slot_def)
  show "length (book_slot_writes s n e) = 2" by (simp add: book_slot_writes_def)
  show sl: "slots (commit 1 (book_slot_writes s n e) db) = slots db"
    by (simp add: commit_1_book_slot_writes)
  show "get_object_or_404 (commit 1 (book_slot_writes s n e) db) i = Inr s"
    using get_object_or_404_slots[OF sl] g by simp
  from get_object_or_404_Inr[OF g] have pk: "pk s = i" by simp
  then show "\<exists>bk \<in> set (bookings (commit 1 (book_slot_writes s n e) db)). slot bk = i"
    by (simp add: commit_1_book_slot_writes)
  show "unavailable (commit 2 (book_slot_writes s n e) db) i"
    unfolding commit_book_slot_writes by (rule unavailable_after_booking[OF wf g])
  from pk show "\<exists>bk \<in> set (bookings (commit 2 (book_slot_writes s n e) db)). slot bk = i"
    by (simp add: commit_book_slot_writes)
qed

lemma interrupted_example:
  "commit 1 (book_slot_writes slot_1 ''Alice'' ''a@x.com'') db_open =
     \<lparr>slots = [slot_1], bookings = [booking_1], slot_seq = 1, booking_seq = 1\<rparr>"
  by (simp add: commit_1_book_slot_writes Booking_objects_create_def Let_def db_open_def
      booking_1_def slot_1_def)

theorem book_slot_interrupted_witness:
  "wf_db db_open \<and> get_object_or_404 db_open 1 = Inr slot_1 \<and>
   request_method booking_form = ''POST'' \<and> POST booking_form ''name'' = Some ''Alice'' \<and>
   POST booking_form ''email'' = Some ''a@x.com'' \<and>
   book_slot booking_form 1 db_open =
     (Inr (redirect ''/''), commit 2 (book_slot_writes slot_1 ''Alice'' ''a@x.com'') db_open) \<and>
   get_object_or_404 (commit 1 (book_slot_writes slot_1 ''Alice'' ''a@x.com'') db_open) 1 = Inr slot_1 \<and>
   bookings (commit 1 (book_slot_writes slot_1 ''Alice'' ''a@x.com'') db_open) = [booking_1] \<and>
   unavailable (commit 2 (book_slot_writes slot_1 ''Alice'' ''a@x.com'') db_open) 1"
proof -
  have m: "request_method booking_form = ''POST''" by (simp add: booking_form_def)
  have n: "POST booking_form ''name'' = Some ''Alice''" by (simp add: booking_form_def)
  have e: "POST booking_form ''email'' = Some ''a@x.com''" by (simp add: booking_form_def)
  note t = book_slot_interrupted [OF wf_db_open get_object_or_404_db_open m n e]
  have b: "bookings (commit 1 (book_slot_writes slot_1 ''Alice'' ''a@x.com'') db_open) = [booking_1]"
    unfolding interrupted_example by simp
  from t wf_db_open get_object_or_404_db_open m n e b show ?thesis by blast
qed

text \<open>
  Claim C4 as the spec states it has the interruption leave a Slot that is unavailable and
  has no Booking. In the example, the state after the first write is not such a state: the
  Slot is available and the Booking is there.
\<close>

theorem book_slot_interrupted_counterexample:
  "\<not> (unavailable (commit 1 (book_slot_writes slot_1 ''Alice'' ''a@x.com'') db_open) 1 \<and>
      \<not> (\<exists>bk \<in> set (bookings (commit 1 (book_slot_writes slot_1 ''Alice'' ''a@x.com'') db_open)).
            slot bk = 1))"
  unfolding interrupted_example by (simp add: unavailable_def slot_1_def booking_1_def)

subsection \<open>The grid days of the displayed month, and the slot map at them\<close>







subsection \<open>Compiling \<open>calendar.html\<close>\<close>

text \<open>
  The expression of the inner \<open>for\<close> tag is a quoted string followed by \<open>.split\<close>, which
  is no filter expression; the expressions after it use the filter \<open>get_item\<close>, which is
  not registered. The first of them in the order of the template ends the compilation.
\<close>

lemma FilterExpression_split:
  "FilterExpression builtin_filters (sq @ ''9am 10am 11am 12pm 1pm 2pm 3pm 4pm'' @ sq @ ''.split'') =
     Some (TemplateSyntaxError
       (''Could not parse the remainder: '' @ sq @ ''.split'' @ sq @ '' from '' @ sq @
          sq @ ''9am 10am 11am 12pm 1pm 2pm 3pm 4pm'' @ sq @ ''.split'' @ sq))"
  by code_simp

lemma FilterExpression_get_item:
  "FilterExpression builtin_filters ''slot_map|get_item:(day,time)'' =
     Some (TemplateSyntaxError (''Invalid filter: '' @ sq @ ''get_item'' @ sq))"
  by code_simp

lemma compile_calendar_html:
  "compile_template calendar_html =
     Some (TemplateSyntaxError
       (''Could not parse the remainder: '' @ sq @ ''.split'' @ sq @ '' from '' @ sq @
          sq @ ''9am 10am 11am 12pm 1pm 2pm 3pm 4pm'' @ sq @ ''.split'' @ sq))"
  by code_simp

lemma render_calendar_html_raises:
  "render_calendar_html ctx =
     Inl (TemplateSyntaxError
       (''Could not parse the remainder: '' @ sq @ ''.split'' @ sq @ '' from '' @ sq @
          sq @ ''9am 10am 11am 12pm 1pm 2pm 3pm 4pm'' @ sq @ ''.split'' @ sq))"
  by (simp add: render_calendar_html_def compile_calendar_html)

lemma itermonthdates_2024_6:
  "itermonthdates 2024 6 =
     Inr (map (\<lambda>d. \<lparr>year = 2024, month = 5, day = d\<rparr>) [27, 28, 29, 30, 31] @
          map (\<lambda>d. \<lparr>year = 2024, month = 6, day = d\<rparr>) [1, 2, 3, 4, 5, 6, 7, 8, 9, 10, 11, 12, 13, 14, 15,
             16, 17, 18, 19, 20, 21, 22, 23, 24, 25, 26, 27, 28, 29, 30])"
  by code_simp

subsection \<open>What GET / answers\<close>

text \<open>
  Claim C2 says that the calendar page of GET / shows, for every Slot of the current month,
  a link to the booking flow of that Slot exactly when the Slot is available, and a
  disabled control when it is not. \<open>index\<close> renders no page: on 2024-06-15, with the one
  Slot of 2024-06-10 at 9am stored and available, \<open>render\<close> raises \<open>TemplateSyntaxError\<close>
  when it compiles \<open>calendar.html\<close>, and on no date and database does \<open>index\<close> return a
  page. So no link is shown for the available Slot.
\<close>

theorem index_raises_TemplateSyntaxError:
  "index june_15 db_open =
     Inl (TemplateSyntaxError
       (''Could not parse the remainder: '' @ sq @ ''.split'' @ sq @ '' from '' @ sq @
          sq @ ''9am 10am 11am 12pm 1pm 2pm 3pm 4pm'' @ sq @ ''.split'' @ sq)) \<and>
   (\<forall>today db page. index today db \<noteq> Inr page)"
proof
  have "itermonthdates (year june_15) (month june_15) = itermonthdates 2024 6"
    by (simp add: june_15_def)
  then show "index june_15 db_open =
     Inl (TemplateSyntaxError
       (''Could not parse the remainder: '' @ sq @ ''.split'' @ sq @ '' from '' @ sq @
          sq @ ''9am 10am 11am 12pm 1pm 2pm 3pm 4pm'' @ sq @ ''.split'' @ sq))"
    unfolding index_def Let_def by (simp only: itermonthdates_2024_6 sum.case render_calendar_html_raises)
  show "\<forall>today db page. index today db \<noteq> Inr page"
    by (simp add: index_def Let_def render_calendar_html_raises split: sum.splits)
qed

subsection \<open>The month filter of \<open>index\<close>\<close>



end
